theory Spec2Isabelle
  imports Complex_Main "HOL-Library.Sublist" "HOL-Library.Multiset" "HOL-Library.Word"
begin

section \<open>Strings\<close>

text \<open>
  A JavaScript string is a sequence of UTF-16 code units. \<open>utf16\<close> gives the string of
  a literal of this theory, whose characters are ASCII. \<open>str_includes\<close> is the method
  \<open>includes\<close>, whose name is a keyword of Isabelle.
\<close>

type_synonym jsstring = "16 word list"

definition utf16 :: "string \<Rightarrow> jsstring" where
  "utf16 s = map (\<lambda>c. of_nat (of_char c)) s"

definition isWhiteSpace :: "16 word \<Rightarrow> bool" where
  \<comment> \<open>WhiteSpace and LineTerminator of ECMAScript: TAB, LF, VT, FF, CR, SP, NBSP, the
      space separators of Unicode, LS, PS and the byte order mark\<close>
  "isWhiteSpace c =
     (c \<in> {0x9, 0xA, 0xB, 0xC, 0xD, 0x20, 0xA0, 0x1680, 0x2028, 0x2029, 0x202F, 0x205F,
            0x3000, 0xFEFF} \<or> (0x2000 \<le> c \<and> c \<le> 0x200A))"

definition trim :: "jsstring \<Rightarrow> jsstring" where
  "trim s = rev (dropWhile isWhiteSpace (rev (dropWhile isWhiteSpace s)))"

fun str_includes :: "jsstring \<Rightarrow> jsstring \<Rightarrow> bool" where
  \<comment> \<open>\<open>s.includes(sub)\<close>: \<open>sub\<close> occurs in \<open>s\<close> at some position\<close>
  "str_includes [] sub = (sub = [])"
| "str_includes (c # cs) sub = (prefix sub (c # cs) \<or> str_includes cs sub)"

text \<open>
  \<open>String.prototype.toLowerCase\<close> maps a string by the case mappings of the Unicode
  Character Database, which are data of the platform, and is not a map of the single
  code units: a capital sigma becomes \<open>U+03C2\<close> at the end of a word and \<open>U+03C3\<close>
  elsewhere, and some characters lower to two. The page's code takes it as a parameter
  \<open>lower\<close> below.
\<close>

section \<open>Numbers\<close>

text \<open>
  A JavaScript number is an IEEE 754 binary64 value. The finite ones are rationals;
  \<open>toDouble\<close> rounds a rational to the nearest binary64 value, ties to even, and
  overflows to an infinity. The two zeros are identified (they are equal under \<open>===\<close>).
\<close>

datatype jsnum = NaN | PosInf | NegInf | Num rat

fun bitlen :: "nat \<Rightarrow> nat" where
  "bitlen n = (if n = 0 then 0 else Suc (bitlen (n div 2)))"

declare bitlen.simps [simp del]

definition pow2 :: "int \<Rightarrow> rat" where
  "pow2 e = (if 0 \<le> e then 2 ^ nat e else 1 / 2 ^ nat (- e))"

definition pow10 :: "int \<Rightarrow> rat" where
  "pow10 e = (if 0 \<le> e then 10 ^ nat e else 1 / 10 ^ nat (- e))"

definition ilog2 :: "rat \<Rightarrow> int" where
  \<comment> \<open>the binary exponent of a positive rational: \<open>pow2 (ilog2 a) \<le> a < pow2 (ilog2 a + 1)\<close>\<close>
  "ilog2 a =
     (case quotient_of a of (n, d) \<Rightarrow>
        let k = int (bitlen (nat n)) - int (bitlen (nat d))
        in if pow2 k \<le> a then k else k - 1)"

definition roundTiesToEven :: "rat \<Rightarrow> int" where
  "roundTiesToEven x =
     (let m = \<lfloor>x\<rfloor>; f = x - of_int m
      in if f < 1 / 2 then m else if 1 / 2 < f then m + 1
         else if even m then m else m + 1)"

definition toDouble :: "rat \<Rightarrow> jsnum" where
  "toDouble q =
     (if q = 0 then Num 0
      else let a = \<bar>q\<bar>;
               u = max (ilog2 a - 52) (- 1074);
               v = of_int (roundTiesToEven (a / pow2 u)) * pow2 u
           in if 2 ^ 1024 \<le> v then (if q < 0 then NegInf else PosInf)
              else Num (if q < 0 then - v else v))"

fun js_times :: "jsnum \<Rightarrow> jsnum \<Rightarrow> jsnum" where
  \<comment> \<open>the operator \<open>*\<close> on numbers\<close>
  "js_times (Num a) (Num b) = toDouble (a * b)"
| "js_times NaN _ = NaN"
| "js_times _ NaN = NaN"
| "js_times PosInf (Num b) = (if b = 0 then NaN else if 0 < b then PosInf else NegInf)"
| "js_times NegInf (Num b) = (if b = 0 then NaN else if 0 < b then NegInf else PosInf)"
| "js_times (Num a) PosInf = (if a = 0 then NaN else if 0 < a then PosInf else NegInf)"
| "js_times (Num a) NegInf = (if a = 0 then NaN else if 0 < a then NegInf else PosInf)"
| "js_times PosInf PosInf = PosInf"
| "js_times NegInf NegInf = PosInf"
| "js_times PosInf NegInf = NegInf"
| "js_times NegInf PosInf = NegInf"

fun Math_round :: "jsnum \<Rightarrow> jsnum" where
  \<comment> \<open>the nearest integer, a tie going up\<close>
  "Math_round (Num x) = Num (of_int \<lfloor>x + 1 / 2\<rfloor>)"
| "Math_round n = n"

definition isDigit :: "16 word \<Rightarrow> bool" where
  "isDigit c = (0x30 \<le> c \<and> c \<le> 0x39)"

definition digits_val :: "jsstring \<Rightarrow> nat" where
  "digits_val ds = foldl (\<lambda>acc c. 10 * acc + (unat c - 48)) 0 ds"

definition signOf :: "jsstring \<Rightarrow> bool \<times> jsstring" where
  \<comment> \<open>an optional sign: whether it is \<open>-\<close>, and the rest\<close>
  "signOf s =
     (case s of [] \<Rightarrow> (False, s)
      | c # t \<Rightarrow> if c = 0x2D then (True, t)
                 else if c = 0x2B then (False, t) else (False, s))"

definition exponentPart :: "jsstring \<Rightarrow> int" where
  \<comment> \<open>the value of an ExponentPart at the head of the string, 0 when there is none\<close>
  "exponentPart s =
     (case s of [] \<Rightarrow> 0
      | c # t \<Rightarrow>
          if c = 0x65 \<or> c = 0x45
          then (case signOf t of (neg, t') \<Rightarrow>
                  let ds = takeWhile isDigit t'
                  in if ds = [] then 0
                     else if neg then - int (digits_val ds) else int (digits_val ds))
          else 0)"

definition parseFloat :: "jsstring \<Rightarrow> jsnum" where
  \<comment> \<open>the longest prefix that is a StrDecimalLiteral, after leading white space\<close>
  "parseFloat input =
     (case signOf (dropWhile isWhiteSpace input) of (neg, r) \<Rightarrow>
        if prefix (utf16 ''Infinity'') r then (if neg then NegInf else PosInf)
        else
          let ip = takeWhile isDigit r;
              r1 = dropWhile isDigit r;
              dot = (r1 \<noteq> [] \<and> hd r1 = 0x2E);
              fp = (if dot then takeWhile isDigit (tl r1) else []);
              r2 = (if dot then dropWhile isDigit (tl r1) else r1)
          in if ip = [] \<and> fp = [] then NaN
             else
               let mv = of_nat (digits_val (ip @ fp)) * pow10 (exponentPart r2 - int (length fp))
               in toDouble (if neg then - mv else mv))"

section \<open>The todo table\<close>

text \<open>
  A row of the table \<open>todo\<close>, which is also the interface \<open>Todo\<close> of the page. The
  fields \<open>todo_id\<close> and \<open>todo_notes\<close> are \<open>id\<close> and \<open>notes\<close>, names that Isabelle
  has taken. The flags are the integers 0 and 1 of SQLite; \<open>sortOrder\<close> and the two
  times are JavaScript numbers that hold integers, modelled by \<open>int\<close>.
\<close>

record Todo =
  todo_id :: jsstring
  title :: jsstring
  description :: "jsstring option"
  todo_notes :: "jsstring option"
  contractorHired :: int
  contractorName :: "jsstring option"
  contractorDetails :: "jsstring option"
  cost :: "jsnum option"
  completed :: int
  sortOrder :: int
  createdAt :: int
  updatedAt :: int

text \<open>
  The table is the list of its rows in insertion order. A row holds the values the
  handlers hand to the query builder; \<open>None\<close> is \<open>null\<close>.
\<close>

type_synonym table = "Todo list"

definition db_update :: "(Todo \<Rightarrow> Todo) \<Rightarrow> (Todo \<Rightarrow> bool) \<Rightarrow> table \<Rightarrow> table" where
  \<comment> \<open>\<open>db.update(todo).set(..).where(..)\<close>\<close>
  "db_update set_fields wh db = map (\<lambda>t. if wh t then set_fields t else t) db"

definition db_delete :: "(Todo \<Rightarrow> bool) \<Rightarrow> table \<Rightarrow> table" where
  \<comment> \<open>\<open>db.delete(todo).where(..)\<close>\<close>
  "db_delete wh db = filter (\<lambda>t. \<not> wh t) db"

definition load :: "table \<Rightarrow> Todo list" where
  \<comment> \<open>\<open>db.select().from(todo).orderBy(asc(todo.sortOrder))\<close>\<close>
  "load db = sort_key sortOrder db"

section \<open>Form actions\<close>

text \<open>
  A submitted form is the list of its (name, value) entries; \<open>formData.get\<close> returns
  the first value of a name. The handlers ask for fixed names only, which are literals.
\<close>

type_synonym formData = "(string \<times> jsstring) list"

definition formData_get :: "formData \<Rightarrow> string \<Rightarrow> jsstring option" where
  "formData_get fd k = map_of fd k"

definition trimmed :: "formData \<Rightarrow> string \<Rightarrow> jsstring option" where
  \<comment> \<open>\<open>formData.get(k)?.toString().trim()\<close>\<close>
  "trimmed fd k = map_option trim (formData_get fd k)"

definition falsy :: "jsstring option \<Rightarrow> bool" where
  \<comment> \<open>\<open>!x\<close> for \<open>x\<close> a string or undefined\<close>
  "falsy x = (x = None \<or> x = Some [])"

definition orNull :: "jsstring option \<Rightarrow> jsstring option" where
  \<comment> \<open>\<open>x || null\<close>\<close>
  "orNull x = (if falsy x then None else x)"

definition costOf :: "formData \<Rightarrow> jsnum option" where
  \<comment> \<open>\<open>costStr ? Math.round(parseFloat(costStr) * 100) : null\<close>\<close>
  "costOf fd =
     (let costStr = trimmed fd ''cost''
      in if falsy costStr then None
         else Some (Math_round (js_times (parseFloat (the costStr)) (Num 100))))"

definition hiredOf :: "formData \<Rightarrow> int" where
  \<comment> \<open>\<open>formData.get('contractorHired') === 'on' ? 1 : 0\<close>\<close>
  "hiredOf fd = (if formData_get fd ''contractorHired'' = Some (utf16 ''on'') then 1 else 0)"

definition form :: "(string \<times> string) list \<Rightarrow> formData" where
  \<comment> \<open>a form whose values are literals\<close>
  "form entries = map (\<lambda>(k, v). (k, utf16 v)) entries"

datatype response =
    Success
  | Fail nat string
  | Thrown

text \<open>
  \<open>Success\<close> is \<open>{ success: true }\<close>, \<open>Fail status error\<close> is
  \<open>fail(status, { error })\<close>, and \<open>Thrown\<close> is an exception leaving the handler
  (the insert of a primary key that exists).
\<close>

definition create :: "jsstring \<Rightarrow> int \<Rightarrow> int \<Rightarrow> formData \<Rightarrow> table \<Rightarrow> response \<times> table" where
  \<comment> \<open>\<open>uuid\<close> is the value of \<open>crypto.randomUUID()\<close>, \<open>t1\<close> and \<open>t2\<close> are the two readings
      of \<open>Date.now()\<close> that fill \<open>createdAt\<close> and \<open>updatedAt\<close>\<close>
  "create uuid t1 t2 fd db =
     (let title' = trimmed fd ''title''
      in if falsy title' then (Fail 400 ''Title is required'', db)
         else
           let lastTodo = take 1 (sort (map sortOrder db));
               nextSortOrder = (if length lastTodo > 0 then hd lastTodo + 1 else 0);
               row = \<lparr> todo_id = uuid,
                       title = the title',
                       description = orNull (trimmed fd ''description''),
                       todo_notes = orNull (trimmed fd ''notes''),
                       contractorHired = hiredOf fd,
                       contractorName = orNull (trimmed fd ''contractorName''),
                       contractorDetails = orNull (trimmed fd ''contractorDetails''),
                       cost = costOf fd,
                       completed = 0,
                       sortOrder = nextSortOrder,
                       createdAt = t1,
                       updatedAt = t2 \<rparr>
           in if uuid \<in> set (map todo_id db) then (Thrown, db)
              else (Success, db @ [row]))"

definition update :: "int \<Rightarrow> formData \<Rightarrow> table \<Rightarrow> response \<times> table" where
  \<comment> \<open>\<open>now\<close> is the reading of \<open>Date.now()\<close>\<close>
  "update now fd db =
     (let id' = formData_get fd ''id''
      in if falsy id' then (Fail 400 ''Todo ID is required'', db)
         else
           let title' = trimmed fd ''title''
           in if falsy title' then (Fail 400 ''Title is required'', db)
              else (Success,
                    db_update (\<lambda>t. t\<lparr> title := the title',
                                       description := orNull (trimmed fd ''description''),
                                       todo_notes := orNull (trimmed fd ''notes''),
                                       contractorHired := hiredOf fd,
                                       contractorName := orNull (trimmed fd ''contractorName''),
                                       contractorDetails := orNull (trimmed fd ''contractorDetails''),
                                       cost := costOf fd,
                                       updatedAt := now \<rparr>)
                              (\<lambda>t. todo_id t = the id') db))"

definition complete :: "int \<Rightarrow> formData \<Rightarrow> table \<Rightarrow> response \<times> table" where
  "complete now fd db =
     (let id' = formData_get fd ''id''
      in if falsy id' then (Fail 400 ''Todo ID is required'', db)
         else (Success,
               db_update (\<lambda>t. t\<lparr> completed := 1, updatedAt := now \<rparr>)
                         (\<lambda>t. todo_id t = the id') db))"

definition restore :: "int \<Rightarrow> formData \<Rightarrow> table \<Rightarrow> response \<times> table" where
  "restore now fd db =
     (let id' = formData_get fd ''id''
      in if falsy id' then (Fail 400 ''Todo ID is required'', db)
         else (Success,
               db_update (\<lambda>t. t\<lparr> completed := 0, updatedAt := now \<rparr>)
                         (\<lambda>t. todo_id t = the id') db))"

definition delete :: "formData \<Rightarrow> table \<Rightarrow> response \<times> table" where
  "delete fd db =
     (let id' = formData_get fd ''id''
      in if falsy id' then (Fail 400 ''Todo ID is required'', db)
         else (Success, db_delete (\<lambda>t. todo_id t = the id') db))"

text \<open>
  \<open>reorder\<close> reads the field \<open>order\<close> with \<open>JSON.parse\<close>. The parser is the
  platform's and is a parameter \<open>parse\<close> here: it gives \<open>None\<close> where
  \<open>JSON.parse\<close> throws, and otherwise the array of \<open>{ id, sortOrder }\<close> pairs, which the
  handler takes to have the type it declares. The updates run in the order of the array.
\<close>

type_synonym assignment = "jsstring \<times> int"

definition apply_order :: "assignment list \<Rightarrow> table \<Rightarrow> table" where
  "apply_order order db =
     foldl (\<lambda>d (i, so). db_update (\<lambda>t. t\<lparr> sortOrder := so \<rparr>) (\<lambda>t. todo_id t = i) d) db order"

definition reorder :: "(jsstring \<Rightarrow> assignment list option) \<Rightarrow> formData \<Rightarrow> table \<Rightarrow> response \<times> table" where
  "reorder parse fd db =
     (let orderJson = formData_get fd ''order''
      in if falsy orderJson then (Fail 400 ''Order data is required'', db)
         else (case parse (the orderJson) of
                 None \<Rightarrow> (Fail 400 ''Invalid order data'', db)
               | Some order \<Rightarrow> (Success, apply_order order db)))"

subsection \<open>The payload the page sends\<close>

text \<open>
  The page builds the field \<open>order\<close> in \<open>handleDrop\<close> with
  \<open>JSON.stringify(todos.map((t, index) => ({ id: t.id, sortOrder: index })))\<close>, which
  writes \<open>[{"id":"..","sortOrder":n},..]\<close> with no white space. \<open>JSON_parse_order\<close>
  reads the texts of exactly this form (ids without quotes, backslashes and control
  characters, \<open>n\<close> a decimal integer) as \<open>JSON.parse\<close> does. It is an instance of the parameter \<open>parse\<close> for
  the concrete runs below; on other texts its \<open>None\<close> only says that the text is not of
  this form.
\<close>

definition expect :: "jsstring \<Rightarrow> jsstring \<Rightarrow> jsstring option" where
  "expect p s = (if prefix p s then Some (drop (length p) s) else None)"

fun string_body :: "jsstring \<Rightarrow> (jsstring \<times> jsstring) option" where
  \<comment> \<open>the characters up to the closing quote, and the rest after it\<close>
  "string_body [] = None"
| "string_body (c # cs) =
     (if c = 0x22 then Some ([], cs)
      else if c = 0x5C \<or> c < 0x20 then None
      else (case string_body cs of None \<Rightarrow> None | Some (b, r) \<Rightarrow> Some (c # b, r)))"

definition integer_literal :: "jsstring \<Rightarrow> (int \<times> jsstring) option" where
  "integer_literal s =
     (let neg = (s \<noteq> [] \<and> hd s = 0x2D);
          r = (if neg then tl s else s);
          ds = takeWhile isDigit r
      in if ds = [] \<or> (1 < length ds \<and> hd ds = 0x30) then None
         else Some (if neg then - int (digits_val ds) else int (digits_val ds),
                    dropWhile isDigit r))"

fun order_items :: "nat \<Rightarrow> jsstring \<Rightarrow> assignment list option" where
  "order_items 0 s = None"
| \<open>order_items (Suc n) s =
     (case expect (utf16 ''{"id":"'') s of None \<Rightarrow> None
      | Some s1 \<Rightarrow>
     (case string_body s1 of None \<Rightarrow> None
      | Some (i, s2) \<Rightarrow>
     (case expect (utf16 '',"sortOrder":'') s2 of None \<Rightarrow> None
      | Some s3 \<Rightarrow>
     (case integer_literal s3 of None \<Rightarrow> None
      | Some (v, s4) \<Rightarrow>
          if s4 = utf16 ''}]'' then Some [(i, v)]
          else (case expect (utf16 ''},'') s4 of None \<Rightarrow> None
                | Some s5 \<Rightarrow> map_option ((#) (i, v)) (order_items n s5))))))\<close>

definition JSON_parse_order :: "jsstring \<Rightarrow> assignment list option" where
  "JSON_parse_order s =
     (if s = utf16 ''[]'' then Some []
      else (case expect (utf16 ''['') s of None \<Rightarrow> None | Some r \<Rightarrow> order_items (length s) r))"

section \<open>The view projection of the page\<close>

text \<open>
  \<open>filteredTodos\<close> works on arrays, which are objects: \<open>filter\<close> allocates a new
  array, \<open>sort\<close> sorts the array it is called on in place and returns the same array.
  The heap is the list of the arrays allocated so far and a reference is an index into it.
\<close>

type_synonym ref = nat

type_synonym heap = "Todo list list"

definition array_filter :: "(Todo \<Rightarrow> bool) \<Rightarrow> ref \<Rightarrow> heap \<Rightarrow> ref \<times> heap" where
  "array_filter p r h = (length h, h @ [filter p (h ! r)])"

definition array_sort :: "ref \<Rightarrow> heap \<Rightarrow> ref \<times> heap" where
  \<comment> \<open>\<open>todos.sort((a, b) => a.sortOrder - b.sortOrder)\<close>; the sort is stable\<close>
  "array_sort r h = (r, h[r := sort_key sortOrder (h ! r)])"

definition opt_includes :: "(jsstring \<Rightarrow> jsstring) \<Rightarrow> jsstring option \<Rightarrow> jsstring \<Rightarrow> bool" where
  \<comment> \<open>\<open>field?.toLowerCase().includes(search)\<close>, undefined counting as false\<close>
  "opt_includes lower field search =
     (case field of None \<Rightarrow> False | Some s \<Rightarrow> str_includes (lower s) search)"

definition matches :: "(jsstring \<Rightarrow> jsstring) \<Rightarrow> jsstring \<Rightarrow> Todo \<Rightarrow> bool" where
  "matches lower search t =
     (str_includes (lower (title t)) search \<or>
      opt_includes lower (description t) search \<or>
      opt_includes lower (todo_notes t) search \<or>
      opt_includes lower (contractorName t) search)"

definition filteredTodos ::
  "(jsstring \<Rightarrow> jsstring) \<Rightarrow> ref \<Rightarrow> jsstring \<Rightarrow> bool \<Rightarrow> heap \<Rightarrow> ref \<times> heap" where
  \<comment> \<open>\<open>lower\<close> is \<open>String.prototype.toLowerCase\<close>, \<open>data_todos\<close> is the reference held
      by \<open>data.todos\<close>\<close>
  "filteredTodos lower data_todos searchFilter showCompleted h =
     (case (if \<not> showCompleted then array_filter (\<lambda>t. completed t = 0) data_todos h
            else (data_todos, h)) of
        (todos1, h1) \<Rightarrow>
     (case (if trim searchFilter \<noteq> []
            then array_filter (matches lower (lower searchFilter)) todos1 h1
            else (todos1, h1)) of
        (todos2, h2) \<Rightarrow> array_sort todos2 h2))"

definition kept :: "(jsstring \<Rightarrow> jsstring) \<Rightarrow> jsstring \<Rightarrow> bool \<Rightarrow> Todo \<Rightarrow> bool" where
  \<comment> \<open>the two filters of \<open>filteredTodos\<close> as one predicate\<close>
  "kept lower s sc t =
     ((sc \<or> completed t = 0) \<and> (trim s = [] \<or> matches lower (lower s) t))"

definition result_of :: "ref \<times> heap \<Rightarrow> Todo list" where
  \<comment> \<open>the array that a returned reference points to\<close>
  "result_of res = snd res ! fst res"

section \<open>What the specification says\<close>

definition blank :: "formData \<Rightarrow> string \<Rightarrow> bool" where
  \<comment> \<open>the field is absent from the submission, or empty once trimmed\<close>
  "blank fd k = (case formData_get fd k of None \<Rightarrow> True | Some v \<Rightarrow> trim v = [])"

definition normalized :: "formData \<Rightarrow> string \<Rightarrow> jsstring option" where
  \<comment> \<open>an optional text field as the specification normalizes it\<close>
  "normalized fd k = (if blank fd k then None else Some (trim (the (formData_get fd k))))"

definition normalized_cost :: "formData \<Rightarrow> jsnum option" where
  \<comment> \<open>the cost as the specification normalizes it: \<open>round(dollars * 100)\<close>\<close>
  "normalized_cost fd =
     (if blank fd ''cost'' then None
      else Some (Math_round
                   (js_times (parseFloat (trim (the (formData_get fd ''cost'')))) (Num 100))))"

definition refreshed :: "int \<Rightarrow> table \<Rightarrow> table \<Rightarrow> bool" where
  \<comment> \<open>every row that differs from what it was carries the time \<open>now\<close> in \<open>updatedAt\<close>\<close>
  "refreshed now db db' =
     (length db' = length db \<and>
      (\<forall>i<length db. db' ! i \<noteq> db ! i \<longrightarrow> updatedAt (db' ! i) = now))"

definition forget_updatedAt :: "table \<Rightarrow> table" where
  "forget_updatedAt db = map (\<lambda>t. t\<lparr> updatedAt := 0 \<rparr>) db"

definition is_nonneg_integer :: "jsnum \<Rightarrow> bool" where
  "is_nonneg_integer c =
     (case c of Num q \<Rightarrow> 0 \<le> q \<and> of_int \<lfloor>q\<rfloor> = q | _ \<Rightarrow> False)"

definition cost_invariant :: "table \<Rightarrow> bool" where
  \<comment> \<open>cost, when present, is a non-negative integer\<close>
  "cost_invariant db = list_all (\<lambda>t. case cost t of None \<Rightarrow> True | Some c \<Rightarrow> is_nonneg_integer c) db"

text \<open>The tables that the six operations produce from the empty table.\<close>

inductive reachable :: "table \<Rightarrow> bool" where
  r_init: "reachable []"
| r_create: "reachable db \<Longrightarrow> reachable (snd (create uuid t1 t2 fd db))"
| r_update: "reachable db \<Longrightarrow> reachable (snd (update now fd db))"
| r_complete: "reachable db \<Longrightarrow> reachable (snd (complete now fd db))"
| r_restore: "reachable db \<Longrightarrow> reachable (snd (restore now fd db))"
| r_delete: "reachable db \<Longrightarrow> reachable (snd (delete fd db))"
| r_reorder: "reachable db \<Longrightarrow> reachable (snd (reorder parse fd db))"

definition cost_field_ok :: "formData \<Rightarrow> bool" where
  \<comment> \<open>the cost field is blank, or \<open>parseFloat\<close> reads it as a number that is not negative
      and whose hundredfold is finite\<close>
  "cost_field_ok fd =
     (falsy (trimmed fd ''cost'') \<or>
      (case parseFloat (the (trimmed fd ''cost'')) of
         Num q \<Rightarrow> 0 \<le> q \<and> toDouble (q * 100) \<noteq> PosInf
       | _ \<Rightarrow> False))"

inductive reachable_ok :: "table \<Rightarrow> bool" where
  ok_init: "reachable_ok []"
| ok_create: "reachable_ok db \<Longrightarrow> cost_field_ok fd \<Longrightarrow> reachable_ok (snd (create uuid t1 t2 fd db))"
| ok_update: "reachable_ok db \<Longrightarrow> cost_field_ok fd \<Longrightarrow> reachable_ok (snd (update now fd db))"
| ok_complete: "reachable_ok db \<Longrightarrow> reachable_ok (snd (complete now fd db))"
| ok_restore: "reachable_ok db \<Longrightarrow> reachable_ok (snd (restore now fd db))"
| ok_delete: "reachable_ok db \<Longrightarrow> reachable_ok (snd (delete fd db))"
| ok_reorder: "reachable_ok db \<Longrightarrow> reachable_ok (snd (reorder parse fd db))"

text \<open>
  The search of the view projection as the specification states it: the search text
  occurs in a field up to the case of the letters, that is, some part of the field has
  the lower case form of the search text.
\<close>

definition ci_substring :: "(jsstring \<Rightarrow> jsstring) \<Rightarrow> jsstring \<Rightarrow> jsstring \<Rightarrow> bool" where
  "ci_substring lower needle hay =
     (\<exists>pre mid post. hay = pre @ mid @ post \<and> lower mid = lower needle)"

definition opt_ci_substring ::
  "(jsstring \<Rightarrow> jsstring) \<Rightarrow> jsstring \<Rightarrow> jsstring option \<Rightarrow> bool" where
  \<comment> \<open>an absent field never matches\<close>
  "opt_ci_substring lower needle field =
     (case field of None \<Rightarrow> False | Some hay \<Rightarrow> ci_substring lower needle hay)"

definition visible :: "(jsstring \<Rightarrow> jsstring) \<Rightarrow> jsstring \<Rightarrow> bool \<Rightarrow> Todo \<Rightarrow> bool" where
  "visible lower searchText showCompleted t =
     ((showCompleted \<or> completed t = 0) \<and>
      (trim searchText = [] \<or>
       ci_substring lower searchText (title t) \<or>
       opt_ci_substring lower searchText (description t) \<or>
       opt_ci_substring lower searchText (todo_notes t) \<or>
       opt_ci_substring lower searchText (contractorName t)))"

text \<open>
  The search as the page does it: the lower case form of the search text occurs in the
  lower case form of a field.
\<close>

definition occurs_in :: "jsstring \<Rightarrow> jsstring \<Rightarrow> bool" where
  "occurs_in needle hay = (\<exists>pre post. hay = pre @ needle @ post)"

definition opt_occurs_lowered ::
  "(jsstring \<Rightarrow> jsstring) \<Rightarrow> jsstring \<Rightarrow> jsstring option \<Rightarrow> bool" where
  \<comment> \<open>an absent field never matches\<close>
  "opt_occurs_lowered lower needle field =
     (case field of None \<Rightarrow> False | Some hay \<Rightarrow> occurs_in (lower needle) (lower hay))"

definition visible_lowered ::
  "(jsstring \<Rightarrow> jsstring) \<Rightarrow> jsstring \<Rightarrow> bool \<Rightarrow> Todo \<Rightarrow> bool" where
  "visible_lowered lower searchText showCompleted t =
     ((showCompleted \<or> completed t = 0) \<and>
      (trim searchText = [] \<or>
       occurs_in (lower searchText) (lower (title t)) \<or>
       opt_occurs_lowered lower searchText (description t) \<or>
       opt_occurs_lowered lower searchText (todo_notes t) \<or>
       opt_occurs_lowered lower searchText (contractorName t)))"

section \<open>A lower case mapping for the concrete runs\<close>

text \<open>
  \<open>toLowerCase_sample\<close> is \<open>String.prototype.toLowerCase\<close> on the strings made of ASCII
  characters and of the Greek letters \<open>U+0391\<close> to \<open>U+03A9\<close> and \<open>U+03B1\<close> to \<open>U+03C9\<close>:
  the capitals move up by \<open>0x20\<close>, except that a capital sigma (\<open>U+03A3\<close>) becomes the
  final sigma \<open>U+03C2\<close> when a cased letter comes before it and none after it, characters
  that are ignored for case (\<open>' . : ^ `\<close>) being skipped on both sides. It is an instance
  of the parameter \<open>lower\<close> for the concrete runs; other strings are not given to it.
\<close>

definition isCased_sample :: "16 word \<Rightarrow> bool" where
  "isCased_sample c =
     ((0x41 \<le> c \<and> c \<le> 0x5A) \<or> (0x61 \<le> c \<and> c \<le> 0x7A) \<or>
      (0x391 \<le> c \<and> c \<le> 0x3A9 \<and> c \<noteq> 0x3A2) \<or> (0x3B1 \<le> c \<and> c \<le> 0x3C9))"

definition isCaseIgnorable_sample :: "16 word \<Rightarrow> bool" where
  "isCaseIgnorable_sample c = (c \<in> {0x27, 0x2E, 0x3A, 0x5E, 0x60})"

definition final_sigma :: "jsstring \<Rightarrow> jsstring \<Rightarrow> bool" where
  \<comment> \<open>the condition Final\_Sigma, for the text before in reverse and the text after\<close>
  "final_sigma before after =
     ((case dropWhile isCaseIgnorable_sample before of [] \<Rightarrow> False
       | c # _ \<Rightarrow> isCased_sample c) \<and>
      \<not> (case dropWhile isCaseIgnorable_sample after of [] \<Rightarrow> False
         | c # _ \<Rightarrow> isCased_sample c))"

definition lower_unit_sample :: "16 word \<Rightarrow> 16 word" where
  "lower_unit_sample c =
     (if (0x41 \<le> c \<and> c \<le> 0x5A) \<or> (0x391 \<le> c \<and> c \<le> 0x3A9 \<and> c \<noteq> 0x3A2)
      then c + 0x20 else c)"

fun lower_from :: "jsstring \<Rightarrow> jsstring \<Rightarrow> jsstring" where
  "lower_from before [] = []"
| "lower_from before (c # cs) =
     (if c = 0x3A3 then (if final_sigma before cs then 0x3C2 else 0x3C3)
      else lower_unit_sample c) # lower_from (c # before) cs"

definition toLowerCase_sample :: "jsstring \<Rightarrow> jsstring" where
  "toLowerCase_sample s = lower_from [] s"

section \<open>Sample data\<close>

text \<open>Two inserts into the empty table, at the times 10 and 20.\<close>

definition db_a :: table where
  "db_a = snd (create (utf16 ''a'') 10 10 (form [(''title'', ''Fix sink'')]) [])"

definition db_ab :: table where
  "db_ab = snd (create (utf16 ''b'') 20 20 (form [(''title'', ''Paint wall'')]) db_a)"

text \<open>One insert with a negative cost, one with the cost 12.5.\<close>

definition db_neg :: table where
  "db_neg = snd (create (utf16 ''n'') 40 40 (form [(''title'', ''Fix tap''), (''cost'', ''-5'')]) [])"

definition db_cost :: table where
  "db_cost = snd (create (utf16 ''n'') 40 40 (form [(''title'', ''Fix tap''), (''cost'', ''12.5'')]) [])"

text \<open>
  A submission that edits the row \<open>a\<close>, two with a cost that is no number, and
  drag-and-drop payloads.
\<close>

definition fd_edit :: formData where
  "fd_edit = form [(''id'', ''a''), (''title'', ''Fix tap''), (''description'', ''  ''),
                   (''notes'', '' call plumber ''), (''cost'', ''12.5'')]"

definition fd_nan :: formData where
  "fd_nan = form [(''id'', ''a''), (''title'', ''Fix tap''), (''cost'', ''abc'')]"

definition fd_nan_create :: formData where
  "fd_nan_create = form [(''title'', ''Fix tap''), (''cost'', ''abc'')]"

definition fd_12abc :: formData where
  "fd_12abc = form [(''title'', ''Fix tap''), (''cost'', ''12abc'')]"

definition fd_order :: formData where
  \<open>fd_order = form [(''order'', ''[{"id":"a","sortOrder":5}]'')]\<close>

definition fd_order_b :: formData where
  \<open>fd_order_b = form [(''order'', ''[{"id":"b","sortOrder":7}]'')]\<close>

text \<open>
  The rows \<open>a\<close> and \<open>b\<close> with \<open>b\<close> completed, as \<open>load\<close> returns them, and the same two
  rows in the opposite order.
\<close>

definition todos_view :: "Todo list" where
  "todos_view = load (snd (complete 25 (form [(''id'', ''b'')]) db_ab))"

definition todos_unsorted :: "Todo list" where
  "todos_unsorted = rev db_ab"

text \<open>
  A row whose title is the two Greek capitals alpha and sigma, and the search text of a
  single capital sigma.
\<close>

definition alpha_sigma :: jsstring where
  "alpha_sigma = [0x391, 0x3A3]"

definition sigma :: jsstring where
  "sigma = [0x3A3]"

definition db_sigma :: table where
  "db_sigma = snd (create (utf16 ''s'') 70 70 [(''title'', alpha_sigma)] [])"

section \<open>Literals\<close>

lemma utf16_Nil_iff [simp]: "utf16 s = [] \<longleftrightarrow> s = []"
  by (simp add: utf16_def)

lemma utf16_eq_iff [simp]: "utf16 s = utf16 t \<longleftrightarrow> s = t"
proof -
  have "inj (\<lambda>c. word_of_nat (of_char c) :: 16 word)"
  proof (rule injI)
    fix c d :: char
    assume "(word_of_nat (of_char c) :: 16 word) = word_of_nat (of_char d)"
    then have "take_bit 16 (of_char c :: nat) = take_bit 16 (of_char d :: nat)"
      by (simp add: word_of_nat_eq_iff)
    moreover have "(of_char c :: nat) < 2 ^ 16" "(of_char d :: nat) < 2 ^ 16"
      by (rule less_trans [OF nat_of_char_less_256], simp)+
    ultimately have "(of_char c :: nat) = of_char d"
      by (simp add: take_bit_nat_eq_self)
    then show "c = d" by simp
  qed
  then show ?thesis
    by (simp add: utf16_def)
qed

lemma form_simps [simp]:
  "form [] = []"
  "form ((k, v) # es) = (k, utf16 v) # form es"
  by (simp_all add: form_def)

section \<open>Evaluation of the samples\<close>

lemma trim_samples:
  "trim (utf16 ''Fix sink'') = utf16 ''Fix sink''"
  "trim (utf16 ''Paint wall'') = utf16 ''Paint wall''"
  "trim (utf16 ''Buy milk'') = utf16 ''Buy milk''"
  "trim (utf16 ''Fix tap'') = utf16 ''Fix tap''"
  by (simp_all add: trim_def isWhiteSpace_def utf16_def)

lemmas form_defs = trimmed_def formData_get_def falsy_def orNull_def costOf_def hiredOf_def

lemma db_a_eq:
  "db_a = [\<lparr> todo_id = utf16 ''a'', title = utf16 ''Fix sink'', description = None, todo_notes = None,
            contractorHired = 0, contractorName = None, contractorDetails = None, cost = None,
            completed = 0, sortOrder = 0, createdAt = 10, updatedAt = 10 \<rparr>]"
  by (simp add: db_a_def create_def form_defs trim_samples)

lemma db_ab_eq:
  "db_ab = db_a @ [\<lparr> todo_id = utf16 ''b'', title = utf16 ''Paint wall'', description = None,
            todo_notes = None, contractorHired = 0, contractorName = None,
            contractorDetails = None, cost = None, completed = 0, sortOrder = 1,
            createdAt = 20, updatedAt = 20 \<rparr>]"
  by (simp add: db_ab_def db_a_eq create_def form_defs trim_samples)

lemma floor_rat_numeral_div:
  "\<lfloor>(numeral a :: rat) / numeral b\<rfloor> = numeral a div numeral b"
  "\<lfloor>- ((numeral a :: rat) / numeral b)\<rfloor> = - numeral a div numeral b"
  using floor_divide_of_int_eq [of "numeral a" "numeral b", where ?'a = rat]
        floor_divide_of_int_eq [of "- numeral a" "numeral b", where ?'a = rat]
  by simp_all

lemma quotient_of_samples: "quotient_of (25 / 2) = (25, 2)"
  by code_simp

lemma bitlen_samples:
  "bitlen 1 = 1" "bitlen (Suc 0) = 1" "bitlen 2 = 2" "bitlen 5 = 3" "bitlen 25 = 5"
  "bitlen 500 = 9" "bitlen 1250 = 11"
  by (simp_all add: bitlen.simps)

lemma ilog2_samples:
  "ilog2 5 = 2" "ilog2 500 = 8" "ilog2 1250 = 10" "ilog2 (25 / 2) = 3"
  by (simp_all add: ilog2_def bitlen_samples pow2_def quotient_of_samples)

lemma toDouble_samples:
  "toDouble (- 5) = Num (- 5)" "toDouble (- 500) = Num (- 500)"
  "toDouble 1250 = Num 1250" "toDouble (25 / 2) = Num (25 / 2)"
  by (simp_all add: toDouble_def ilog2_samples pow2_def roundTiesToEven_def)

lemma parseFloat_samples:
  "parseFloat (utf16 ''-5'') = Num (- 5)" "parseFloat (utf16 ''12.5'') = Num (25 / 2)" "parseFloat (utf16 ''abc'') = NaN"
  by (simp_all add: parseFloat_def signOf_def isWhiteSpace_def isDigit_def digits_val_def
      exponentPart_def pow10_def toDouble_samples utf16_def)

lemma trim_cost_samples:
  "trim (utf16 ''-5'') = utf16 ''-5''" "trim (utf16 ''12.5'') = utf16 ''12.5''" "trim (utf16 ''abc'') = utf16 ''abc''"
  by (simp_all add: trim_def isWhiteSpace_def utf16_def)

lemma costOf_samples:
  "costOf [(''title'', utf16 ''Fix tap''), (''cost'', utf16 ''-5'')] = Some (Num (- 500))"
  "costOf [(''title'', utf16 ''Fix tap''), (''cost'', utf16 ''abc'')] = Some NaN"
  "costOf [(''title'', utf16 ''Fix tap''), (''cost'', utf16 ''12.5'')] = Some (Num 1250)"
  by (simp_all add: costOf_def trimmed_def formData_get_def falsy_def trim_cost_samples
      parseFloat_samples toDouble_samples floor_rat_numeral_div)

lemma db_neg_eq:
  "db_neg = [\<lparr> todo_id = utf16 ''n'', title = utf16 ''Fix tap'', description = None, todo_notes = None,
              contractorHired = 0, contractorName = None, contractorDetails = None,
              cost = Some (Num (- 500)), completed = 0, sortOrder = 0, createdAt = 40,
              updatedAt = 40 \<rparr>]"
  by (simp add: db_neg_def create_def costOf_samples trimmed_def formData_get_def falsy_def
      orNull_def hiredOf_def trim_samples)

lemma db_cost_eq:
  "db_cost = [\<lparr> todo_id = utf16 ''n'', title = utf16 ''Fix tap'', description = None, todo_notes = None,
               contractorHired = 0, contractorName = None, contractorDetails = None,
               cost = Some (Num 1250), completed = 0, sortOrder = 0, createdAt = 40,
               updatedAt = 40 \<rparr>]"
  by (simp add: db_cost_def create_def costOf_samples trimmed_def formData_get_def falsy_def
      orNull_def hiredOf_def trim_samples)

lemma trim_edit_samples:
  "trim (utf16 ''  '') = []" "trim (utf16 '' call plumber '') = utf16 ''call plumber''"
  by (simp_all add: trim_def isWhiteSpace_def utf16_def)

lemma costOf_fd_edit: "costOf fd_edit = Some (Num 1250)"
  by (simp add: fd_edit_def costOf_def trimmed_def formData_get_def falsy_def trim_cost_samples
      parseFloat_samples toDouble_samples floor_rat_numeral_div)

lemma update_fd_edit:
  "update 50 fd_edit db_a =
     (Success, [\<lparr> todo_id = utf16 ''a'', title = utf16 ''Fix tap'', description = None,
                  todo_notes = Some (utf16 ''call plumber''), contractorHired = 0,
                  contractorName = None, contractorDetails = None, cost = Some (Num 1250),
                  completed = 0, sortOrder = 0, createdAt = 10, updatedAt = 50 \<rparr>])"
  by (simp add: update_def Let_def db_update_def db_a_eq costOf_fd_edit)
     (simp add: fd_edit_def trimmed_def formData_get_def falsy_def orNull_def hiredOf_def
      trim_samples trim_edit_samples)

lemma JSON_parse_order_samples:
  \<open>JSON_parse_order (utf16 ''[{"id":"a","sortOrder":5}]'') = Some [(utf16 ''a'', 5)]\<close>
  \<open>JSON_parse_order (utf16 ''[{"id":"b","sortOrder":7}]'') = Some [(utf16 ''b'', 7)]\<close>
  by (simp_all add: JSON_parse_order_def expect_def integer_literal_def isDigit_def
      digits_val_def utf16_def)

lemma reorder_fd_order:
  "reorder JSON_parse_order fd_order db_a =
     (Success, [\<lparr> todo_id = utf16 ''a'', title = utf16 ''Fix sink'', description = None, todo_notes = None,
                  contractorHired = 0, contractorName = None, contractorDetails = None,
                  cost = None, completed = 0, sortOrder = 5, createdAt = 10,
                  updatedAt = 10 \<rparr>])"
  by (simp add: reorder_def fd_order_def formData_get_def falsy_def JSON_parse_order_samples
      apply_order_def db_update_def db_a_eq)

lemma todos_view_eq:
  "todos_view =
     [\<lparr> todo_id = utf16 ''a'', title = utf16 ''Fix sink'', description = None, todo_notes = None,
         contractorHired = 0, contractorName = None, contractorDetails = None, cost = None,
         completed = 0, sortOrder = 0, createdAt = 10, updatedAt = 10 \<rparr>,
      \<lparr> todo_id = utf16 ''b'', title = utf16 ''Paint wall'', description = None, todo_notes = None,
         contractorHired = 0, contractorName = None, contractorDetails = None, cost = None,
         completed = 1, sortOrder = 1, createdAt = 20, updatedAt = 25 \<rparr>]"
  by (simp add: todos_view_def load_def complete_def db_update_def formData_get_def falsy_def
      db_ab_eq db_a_eq)

section \<open>Facts about the table operations\<close>

lemma db_update_length: "length (db_update f w db) = length db"
  by (simp add: db_update_def)

lemma db_update_nth:
  "i < length db \<Longrightarrow> db_update f w db ! i = (if w (db ! i) then f (db ! i) else db ! i)"
  by (simp add: db_update_def)

lemma db_update_no_match: "\<forall>t\<in>set db. \<not> w t \<Longrightarrow> db_update f w db = db"
  by (simp add: db_update_def map_idI)

lemma orNull_trimmed: "orNull (trimmed fd k) = normalized fd k"
  by (auto simp: orNull_def trimmed_def normalized_def blank_def falsy_def split: option.splits)

lemma costOf_normalized: "costOf fd = normalized_cost fd"
  by (auto simp: costOf_def trimmed_def normalized_cost_def blank_def falsy_def Let_def
      split: option.splits)

lemma apply_order_Cons:
  "apply_order ((i, so) # order) db =
     apply_order order (db_update (\<lambda>t. t\<lparr> sortOrder := so \<rparr>) (\<lambda>t. todo_id t = i) db)"
  by (simp add: apply_order_def)

lemma apply_order_length: "length (apply_order order db) = length db"
  by (induction order arbitrary: db) (auto simp: apply_order_def db_update_length)

lemma apply_order_other_fields:
  "i < length db \<Longrightarrow> (apply_order order db ! i)\<lparr> sortOrder := s \<rparr> = (db ! i)\<lparr> sortOrder := s \<rparr>"
proof (induction order arbitrary: db)
  case Nil
  then show ?case by (simp add: apply_order_def)
next
  case (Cons a order)
  obtain j so where a: "a = (j, so)" by (cases a)
  let ?db = "db_update (\<lambda>t. t\<lparr> sortOrder := so \<rparr>) (\<lambda>t. todo_id t = j) db"
  from Cons.prems have "i < length ?db"
    by (simp add: db_update_length)
  from Cons.IH [OF this] have "(apply_order order ?db ! i)\<lparr> sortOrder := s \<rparr> = (?db ! i)\<lparr> sortOrder := s \<rparr>" .
  also have "\<dots> = (db ! i)\<lparr> sortOrder := s \<rparr>"
    using Cons.prems by (simp add: db_update_nth)
  finally show ?case
    by (simp add: a apply_order_Cons)
qed

lemma apply_order_unlisted:
  "i < length db \<Longrightarrow> todo_id (db ! i) \<notin> fst ` set order \<Longrightarrow> apply_order order db ! i = db ! i"
proof (induction order arbitrary: db)
  case Nil
  then show ?case by (simp add: apply_order_def)
next
  case (Cons a order)
  obtain j so where a: "a = (j, so)" by (cases a)
  let ?db = "db_update (\<lambda>t. t\<lparr> sortOrder := so \<rparr>) (\<lambda>t. todo_id t = j) db"
  from Cons.prems a have same: "?db ! i = db ! i"
    by (auto simp: db_update_nth)
  from Cons.prems have len: "i < length ?db"
    by (simp add: db_update_length)
  from Cons.prems a same have "todo_id (?db ! i) \<notin> fst ` set order"
    by simp
  from Cons.IH [OF len this] same show ?case
    by (simp add: a apply_order_Cons)
qed

lemma apply_order_updatedAt: "map updatedAt (apply_order order db) = map updatedAt db"
proof (rule nth_equalityI)
  show "length (map updatedAt (apply_order order db)) = length (map updatedAt db)"
    by (simp add: apply_order_length)
next
  fix i assume "i < length (map updatedAt (apply_order order db))"
  then have i: "i < length db"
    by (simp add: apply_order_length)
  from apply_order_other_fields [OF i, where order = order and s = 0]
  have "updatedAt ((apply_order order db ! i)\<lparr> sortOrder := 0 \<rparr>) = updatedAt ((db ! i)\<lparr> sortOrder := 0 \<rparr>)"
    by simp
  then show "map updatedAt (apply_order order db) ! i = map updatedAt db ! i"
    using i by (simp add: apply_order_length)
qed

section \<open>The sort order of a new row\<close>

text \<open>
  What the handler computes for a table that is not empty: the smallest sort order
  plus 1.
\<close>

lemma hd_sort_Min:
  assumes "xs \<noteq> []"
  shows "sort xs \<noteq> [] \<and> hd (take 1 (sort xs)) = Min (set xs)"
proof -
  from assms have ne: "sort xs \<noteq> []"
    by (metis length_0_conv length_sort)
  from ne obtain y ys where ys: "sort xs = y # ys"
    by (cases "sort xs") auto
  have "sorted (y # ys)"
    using sorted_sort [of xs] by (simp add: ys)
  then have le: "\<forall>z\<in>set ys. y \<le> z"
    by simp
  have s: "set xs = insert y (set ys)"
    using set_sort [of "\<lambda>x. x" xs] by (simp add: ys)
  have "Min (set xs) = y"
    unfolding s using le by (intro Min_eqI) auto
  with ne show ?thesis
    by (simp add: ys)
qed

lemma create_sortOrder_min:
  assumes "\<not> falsy (trimmed fd ''title'')"
    and "uuid \<notin> set (map todo_id db)"
    and "db \<noteq> []"
  shows "sortOrder (last (snd (create uuid t1 t2 fd db))) = Min (set (map sortOrder db)) + 1"
proof -
  from assms(3) have "map sortOrder db \<noteq> []" by simp
  from hd_sort_Min [OF this] assms show ?thesis
    by (simp add: create_def Let_def)
qed

text \<open>
  C1: the row that \<open>create\<close> inserts should get the largest \<open>sortOrder\<close> of the table
  plus 1. The handler reads the first row of the table ordered by \<open>asc(sortOrder)\<close>, which
  holds the smallest value: after two inserts the table has the sort orders 0 and 1, and
  the third insert gets 1 again, not 2.
\<close>

theorem create_third_sortOrder:
  "fst (create (utf16 ''c'') 30 30 (form [(''title'', ''Buy milk'')]) db_ab) = Success \<and>
   map sortOrder db_ab = [0, 1] \<and>
   map sortOrder (snd (create (utf16 ''c'') 30 30 (form [(''title'', ''Buy milk'')]) db_ab)) = [0, 1, 1]"
  by (simp add: db_ab_eq db_a_eq create_def form_defs trim_samples)

section \<open>The time of the last update\<close>

text \<open>
  A reorder at the time 60 moves the row \<open>a\<close>, written at the time 10, to the sort order
  5 and leaves its \<open>updatedAt\<close> at 10.
\<close>

theorem reorder_leaves_updatedAt:
  "\<not> refreshed 60 db_a (snd (reorder JSON_parse_order fd_order db_a))"
  by (simp add: reorder_fd_order) (simp add: refreshed_def db_a_eq)

text \<open>
  C2, amended: \<open>update\<close>, \<open>complete\<close> and \<open>restore\<close> set \<open>updatedAt\<close> of each row they
  modify to the time of the call; \<open>reorder\<close> rewrites \<open>sortOrder\<close> only and leaves every
  \<open>updatedAt\<close> as it was.
\<close>

theorem mutations_and_updatedAt:
  "refreshed now db (snd (update now fd db)) \<and>
   refreshed now db (snd (complete now fd db)) \<and>
   refreshed now db (snd (restore now fd db)) \<and>
   map updatedAt (snd (reorder parse fd' db)) = map updatedAt db"
proof -
  have "refreshed now db (snd (update now fd db))"
    by (simp add: update_def Let_def refreshed_def db_update_length db_update_nth)
  moreover have "refreshed now db (snd (complete now fd db))"
    by (simp add: complete_def Let_def refreshed_def db_update_length db_update_nth)
  moreover have "refreshed now db (snd (restore now fd db))"
    by (simp add: restore_def Let_def refreshed_def db_update_length db_update_nth)
  moreover have "map updatedAt (snd (reorder parse fd' db)) = map updatedAt db"
    by (simp add: reorder_def Let_def apply_order_updatedAt split: option.splits)
  ultimately show ?thesis by blast
qed

theorem mutations_and_updatedAt_witness:
  "refreshed 50 db_a (snd (update 50 fd_edit db_a)) \<and>
   updatedAt (snd (update 50 fd_edit db_a) ! 0) = 50 \<and>
   map updatedAt (snd (reorder JSON_parse_order fd_order db_a)) = [10]"
  using mutations_and_updatedAt [of 50 db_a fd_edit JSON_parse_order fd_order]
  by (simp add: update_fd_edit reorder_fd_order)

section \<open>Updating a row that does not exist\<close>

text \<open>
  An \<open>update\<close> for the id \<open>nope\<close>, which no row of the table has, reports success and
  leaves the table as it was.
\<close>

theorem update_unknown_id_succeeds:
  "update 5 (form [(''id'', ''nope''), (''title'', ''Fix tap'')]) db_a = (Success, db_a)"
  by (simp add: update_def db_update_def Let_def db_a_eq form_defs trim_samples)

text \<open>
  C3, amended: for an id that no row has, \<open>update\<close> with a non-empty title fails only
  when the id is missing or empty (status 400); for any other such id it reports success
  and changes nothing.
\<close>

theorem update_unknown_id:
  assumes "\<not> falsy (trimmed fd ''title'')"
    and "\<forall>t\<in>set db. formData_get fd ''id'' \<noteq> Some (todo_id t)"
  shows "update now fd db =
           (if falsy (formData_get fd ''id'') then (Fail 400 ''Todo ID is required'', db)
            else (Success, db))"
proof (cases "falsy (formData_get fd ''id'')")
  case True
  then show ?thesis by (simp add: update_def)
next
  case False
  then obtain i where "formData_get fd ''id'' = Some i"
    by (auto simp: falsy_def)
  with assms(2) have "\<forall>t\<in>set db. \<not> (todo_id t = the (formData_get fd ''id''))"
    by auto
  then show ?thesis
    using False assms(1) by (simp add: update_def Let_def db_update_no_match)
qed

theorem update_unknown_id_witness:
  "update 5 (form [(''id'', ''nope''), (''title'', ''Fix tap'')]) db_a =
     (if falsy (formData_get (form [(''id'', ''nope''), (''title'', ''Fix tap'')]) ''id'')
      then (Fail 400 ''Todo ID is required'', db_a) else (Success, db_a))"
  using update_unknown_id [of "form [(''id'', ''nope''), (''title'', ''Fix tap'')]" db_a 5]
  by (simp add: db_a_eq form_defs trim_samples)

section \<open>The sign of the cost\<close>

lemma pow2_pos: "0 < pow2 e"
  by (simp add: pow2_def)

lemma roundTiesToEven_nonneg: "0 \<le> x \<Longrightarrow> 0 \<le> roundTiesToEven x"
  by (simp add: roundTiesToEven_def Let_def)

lemma toDouble_nonneg:
  assumes "0 \<le> q" and "toDouble q \<noteq> PosInf"
  shows "\<exists>v. toDouble q = Num v \<and> 0 \<le> v"
proof (cases "q = 0")
  case True
  then show ?thesis by (simp add: toDouble_def)
next
  case False
  with assms(1) have pos: "0 < q" by simp
  define u where "u = max (ilog2 \<bar>q\<bar> - 52) (- 1074)"
  define v where "v = rat_of_int (roundTiesToEven (\<bar>q\<bar> / pow2 u)) * pow2 u"
  have "0 \<le> \<bar>q\<bar> / pow2 u"
    using pow2_pos [of u] by simp
  then have "0 \<le> roundTiesToEven (\<bar>q\<bar> / pow2 u)"
    by (rule roundTiesToEven_nonneg)
  then have v: "0 \<le> v"
    using pow2_pos [of u] by (simp add: v_def)
  have "toDouble q = (if 2 ^ 1024 \<le> v then PosInf else Num v)"
    using pos by (simp add: toDouble_def Let_def u_def v_def)
  with assms(2) have "toDouble q = Num v"
    by (simp split: if_splits)
  with v show ?thesis by blast
qed

lemma cost_field_ok_costOf:
  assumes "cost_field_ok fd"
  shows "case costOf fd of None \<Rightarrow> True | Some c \<Rightarrow> is_nonneg_integer c"
proof (cases "falsy (trimmed fd ''cost'')")
  case True
  then show ?thesis by (simp add: costOf_def)
next
  case False
  with assms obtain q where q: "parseFloat (the (trimmed fd ''cost'')) = Num q"
    and nn: "0 \<le> q" and fin: "toDouble (q * 100) \<noteq> PosInf"
    by (auto simp: cost_field_ok_def split: jsnum.splits)
  from nn have "0 \<le> q * 100" by simp
  from toDouble_nonneg [OF this fin] obtain v where v: "toDouble (q * 100) = Num v" "0 \<le> v"
    by blast
  then have "0 \<le> \<lfloor>v + 1 / 2\<rfloor>" by simp
  then show ?thesis
    using False q v by (simp add: costOf_def Let_def is_nonneg_integer_def)
qed

lemma cost_invariant_db_update:
  assumes "cost_invariant db"
    and "\<And>t. cost (f t) = cost t \<or> (case cost (f t) of None \<Rightarrow> True | Some c \<Rightarrow> is_nonneg_integer c)"
  shows "cost_invariant (db_update f w db)"
  unfolding cost_invariant_def db_update_def list_all_iff
proof
  fix t' assume "t' \<in> set (map (\<lambda>t. if w t then f t else t) db)"
  then obtain t where t: "t \<in> set db" and t': "t' = (if w t then f t else t)"
    by auto
  from assms(1) t have inv: "case cost t of None \<Rightarrow> True | Some c \<Rightarrow> is_nonneg_integer c"
    by (simp add: cost_invariant_def list_all_iff)
  show "case cost t' of None \<Rightarrow> True | Some c \<Rightarrow> is_nonneg_integer c"
    using assms(2) [of t] inv t' by (auto split: if_splits)
qed

lemma cost_invariant_apply_order: "cost_invariant db \<Longrightarrow> cost_invariant (apply_order order db)"
proof (induction order arbitrary: db)
  case Nil
  then show ?case by (simp add: apply_order_def)
next
  case (Cons a order)
  obtain i so where a: "a = (i, so)" by (cases a)
  have "cost_invariant (db_update (\<lambda>t. t\<lparr>sortOrder := so\<rparr>) (\<lambda>t. todo_id t = i) db)"
    using Cons.prems by (rule cost_invariant_db_update) simp
  from Cons.IH [OF this] show ?case
    by (simp add: apply_order_def a)
qed

text \<open>
  A submitted cost of \<open>-5\<close> is stored as \<open>-500\<close>: the table after this one insert is
  reachable and holds a negative cost.
\<close>

theorem negative_cost_reachable:
  "reachable db_neg \<and> \<not> cost_invariant db_neg"
proof
  show "reachable db_neg"
    unfolding db_neg_def by (rule r_create) (rule r_init)
  show "\<not> cost_invariant db_neg"
    by (simp add: db_neg_eq cost_invariant_def is_nonneg_integer_def)
qed

text \<open>
  C4, amended: in every table reached through the operations with each submitted cost
  either blank or read by \<open>parseFloat\<close> as a number that is not negative and whose
  hundredfold does not overflow, every cost that is present is a non-negative integer.
  The handlers do not check the sign themselves.
\<close>

theorem cost_nonneg_invariant:
  "reachable_ok db \<Longrightarrow> cost_invariant db"
proof (induction rule: reachable_ok.induct)
  case ok_init
  show ?case by (simp add: cost_invariant_def)
next
  case (ok_create db fd uuid t1 t2)
  from cost_field_ok_costOf [OF ok_create.hyps(2)] ok_create.IH show ?case
    by (simp add: create_def Let_def cost_invariant_def)
next
  case (ok_update db fd now)
  have "cost_invariant (db_update (\<lambda>t. t\<lparr> title := the (trimmed fd ''title''),
          description := orNull (trimmed fd ''description''),
          todo_notes := orNull (trimmed fd ''notes''),
          contractorHired := hiredOf fd,
          contractorName := orNull (trimmed fd ''contractorName''),
          contractorDetails := orNull (trimmed fd ''contractorDetails''),
          cost := costOf fd, updatedAt := now \<rparr>) (\<lambda>t. todo_id t = the (formData_get fd ''id'')) db)"
    using ok_update.IH
    by (rule cost_invariant_db_update) (simp add: cost_field_ok_costOf [OF ok_update.hyps(2)])
  with ok_update.IH show ?case
    by (simp add: update_def Let_def)
next
  case (ok_complete db now fd)
  have "cost_invariant (db_update (\<lambda>t. t\<lparr> completed := 1, updatedAt := now \<rparr>)
          (\<lambda>t. todo_id t = the (formData_get fd ''id'')) db)"
    using ok_complete.IH by (rule cost_invariant_db_update) simp
  with ok_complete.IH show ?case
    by (simp add: complete_def Let_def)
next
  case (ok_restore db now fd)
  have "cost_invariant (db_update (\<lambda>t. t\<lparr> completed := 0, updatedAt := now \<rparr>)
          (\<lambda>t. todo_id t = the (formData_get fd ''id'')) db)"
    using ok_restore.IH by (rule cost_invariant_db_update) simp
  with ok_restore.IH show ?case
    by (simp add: restore_def Let_def)
next
  case (ok_delete db fd)
  then show ?case
    by (simp add: delete_def Let_def db_delete_def cost_invariant_def list_all_iff)
next
  case (ok_reorder db parse fd)
  then show ?case
    by (simp add: reorder_def Let_def cost_invariant_apply_order split: option.splits)
qed

theorem cost_nonneg_invariant_witness:
  "reachable_ok db_cost \<and> cost_invariant db_cost"
proof -
  have "cost_field_ok (form [(''title'', ''Fix tap''), (''cost'', ''12.5'')])"
    by (simp add: cost_field_ok_def trimmed_def formData_get_def falsy_def trim_cost_samples
        parseFloat_samples toDouble_samples)
  then have r: "reachable_ok db_cost"
    unfolding db_cost_def by (rule ok_create [OF ok_init])
  from r cost_nonneg_invariant [OF r] show ?thesis by simp
qed

section \<open>A cost that is not a number\<close>

lemma cost_12abc_samples:
  "bitlen 12 = 4" "bitlen 1200 = 11" "ilog2 12 = 3" "ilog2 1200 = 10"
  "toDouble 12 = Num 12" "toDouble 1200 = Num 1200"
  "trim (utf16 ''12abc'') = utf16 ''12abc''"
  "parseFloat (utf16 ''12abc'') = Num 12"
proof -
  show b: "bitlen 12 = 4" "bitlen 1200 = 11"
    by (simp_all add: bitlen.simps)
  show i: "ilog2 12 = 3" "ilog2 1200 = 10"
    by (simp_all add: ilog2_def b bitlen_samples pow2_def)
  show d: "toDouble 12 = Num 12" "toDouble 1200 = Num 1200"
    by (simp_all add: toDouble_def i pow2_def roundTiesToEven_def)
  show "trim (utf16 ''12abc'') = utf16 ''12abc''"
    by (simp add: trim_def isWhiteSpace_def utf16_def)
  show "parseFloat (utf16 ''12abc'') = Num 12"
    by (simp add: parseFloat_def signOf_def isWhiteSpace_def isDigit_def digits_val_def
        exponentPart_def pow10_def d utf16_def)
qed

lemma normalized_cost_samples:
  "normalized_cost fd_nan = Some NaN"
  "normalized_cost fd_nan_create = Some NaN"
  "normalized_cost fd_12abc = Some (Num 1200)"
  by (simp_all add: normalized_cost_def blank_def formData_get_def fd_nan_def
      fd_nan_create_def fd_12abc_def trim_cost_samples parseFloat_samples cost_12abc_samples
      floor_rat_numeral_div)

text \<open>
  A \<open>create\<close> with the cost \<open>abc\<close> is not rejected: it reports success and inserts a
  row, with \<open>NaN\<close> handed to the table as the cost.
\<close>

theorem create_nonnumeric_cost_succeeds:
  "create (utf16 ''n'') 40 40 (form [(''title'', ''Fix tap''), (''cost'', ''abc'')]) [] =
     (Success, [\<lparr> todo_id = utf16 ''n'', title = utf16 ''Fix tap'', description = None,
                  todo_notes = None, contractorHired = 0, contractorName = None,
                  contractorDetails = None, cost = Some NaN, completed = 0, sortOrder = 0,
                  createdAt = 40, updatedAt = 40 \<rparr>])"
  by (simp add: create_def costOf_samples trimmed_def formData_get_def falsy_def
      orNull_def hiredOf_def trim_samples)

text \<open>
  C5, amended: a create or update submission is never rejected for its cost field,
  whatever string it holds. With a non-empty title (and a fresh key for create, an id for
  update) the operation reports success; create appends a row and update rewrites the rows
  of the id. The cost they hand to the table is \<open>Math.round(parseFloat(cost) * 100)\<close> of
  the trimmed field: \<open>NaN\<close> when \<open>parseFloat\<close> finds no number at its head, the cents of
  the leading number otherwise, and null when the field is blank.
\<close>

theorem nonnumeric_cost_accepted:
  "(\<not> falsy (trimmed fd ''title'') \<and> uuid \<notin> set (map todo_id db) \<longrightarrow>
      fst (create uuid tc tu fd db) = Success \<and>
      butlast (snd (create uuid tc tu fd db)) = db \<and>
      map cost (snd (create uuid tc tu fd db)) = map cost db @ [normalized_cost fd]) \<and>
   (\<not> falsy (trimmed fd' ''title'') \<and> \<not> falsy (formData_get fd' ''id'') \<longrightarrow>
      fst (update now fd' db) = Success \<and>
      map cost (snd (update now fd' db)) =
        map (\<lambda>t. if formData_get fd' ''id'' = Some (todo_id t) then normalized_cost fd'
                 else cost t) db) \<and>
   (\<not> blank fd ''cost'' \<longrightarrow>
      normalized_cost fd =
        Some (Math_round (js_times (parseFloat (trim (the (formData_get fd ''cost''))))
                (Num 100)))) \<and>
   (\<not> blank fd ''cost'' \<and> parseFloat (trim (the (formData_get fd ''cost''))) = NaN \<longrightarrow>
      normalized_cost fd = Some NaN)"
proof -
  have c: "fst (create uuid tc tu fd db) = Success \<and>
           butlast (snd (create uuid tc tu fd db)) = db \<and>
           map cost (snd (create uuid tc tu fd db)) = map cost db @ [normalized_cost fd]"
    if "\<not> falsy (trimmed fd ''title'')" and "uuid \<notin> set (map todo_id db)"
    using that by (simp add: create_def Let_def costOf_normalized)
  have u: "fst (update now fd' db) = Success \<and>
           map cost (snd (update now fd' db)) =
             map (\<lambda>t. if formData_get fd' ''id'' = Some (todo_id t) then normalized_cost fd'
                      else cost t) db"
    if t: "\<not> falsy (trimmed fd' ''title'')" and i: "\<not> falsy (formData_get fd' ''id'')"
  proof -
    from i obtain j where "formData_get fd' ''id'' = Some j"
      by (auto simp: falsy_def)
    with t i show ?thesis
      by (auto simp: update_def Let_def db_update_def costOf_normalized)
  qed
  have n: "normalized_cost fd = Some NaN"
    if "\<not> blank fd ''cost''" and "parseFloat (trim (the (formData_get fd ''cost''))) = NaN"
    using that by (simp add: normalized_cost_def)
  have m: "normalized_cost fd =
             Some (Math_round (js_times (parseFloat (trim (the (formData_get fd ''cost''))))
                     (Num 100)))"
    if "\<not> blank fd ''cost''"
    using that by (simp add: normalized_cost_def)
  from c u n m show ?thesis by blast
qed

theorem nonnumeric_cost_accepted_witness:
  "fst (create (utf16 ''n'') 40 40 fd_nan_create db_a) = Success \<and>
   map cost (snd (create (utf16 ''n'') 40 40 fd_nan_create db_a)) = [None, Some NaN] \<and>
   fst (update 50 fd_nan db_a) = Success \<and>
   map cost (snd (update 50 fd_nan db_a)) = [Some NaN] \<and>
   fst (create (utf16 ''n'') 40 40 fd_12abc db_a) = Success \<and>
   map cost (snd (create (utf16 ''n'') 40 40 fd_12abc db_a)) = [None, Some (Num 1200)]"
proof -
  have t: "\<not> falsy (trimmed fd_nan_create ''title'')" "\<not> falsy (trimmed fd_nan ''title'')"
    "\<not> falsy (trimmed fd_12abc ''title'')"
    by (simp_all add: fd_nan_create_def fd_nan_def fd_12abc_def trimmed_def formData_get_def
        falsy_def trim_samples)
  have i: "\<not> falsy (formData_get fd_nan ''id'')" "formData_get fd_nan ''id'' = Some (utf16 ''a'')"
    by (simp_all add: fd_nan_def formData_get_def falsy_def)
  have f: "utf16 ''n'' \<notin> set (map todo_id db_a)"
    by (simp add: db_a_eq)
  have d: "map cost db_a = [None]"
    "map (\<lambda>t. if Some (utf16 ''a'') = Some (todo_id t) then normalized_cost fd_nan
              else cost t) db_a = [Some NaN]"
    by (simp_all add: db_a_eq normalized_cost_samples)
  from nonnumeric_cost_accepted [where fd = fd_nan_create and uuid = "utf16 ''n''"
      and db = db_a and tc = 40 and tu = 40 and fd' = fd_nan and now = 50]
    nonnumeric_cost_accepted [where fd = fd_12abc and uuid = "utf16 ''n''"
      and db = db_a and tc = 40 and tu = 40 and fd' = fd_nan and now = 50]
    t i f d
  show ?thesis
    by (simp add: normalized_cost_samples)
qed

section \<open>Completing and restoring twice\<close>

text \<open>
  Completing the row \<open>a\<close> at time 1 and again at time 2 does not leave the table that
  completing it once at time 1 leaves: \<open>updatedAt\<close> is 2, not 1.
\<close>

theorem complete_twice_differs:
  "snd (complete 2 (form [(''id'', ''a'')]) (snd (complete 1 (form [(''id'', ''a'')]) db_a)))
     \<noteq> snd (complete 1 (form [(''id'', ''a'')]) db_a)"
  by (simp add: complete_def db_update_def Let_def db_a_eq formData_get_def falsy_def)

text \<open>
  C6, amended: calling \<open>complete\<close> twice in succession, at the times \<open>n1\<close> and then
  \<open>n2\<close>, leaves the table that one call at the time \<open>n2\<close> leaves; against one call
  at \<open>n1\<close> every field but \<open>updatedAt\<close> is the same. Likewise for \<open>restore\<close>.
\<close>

theorem complete_restore_twice:
  "snd (complete n2 fd (snd (complete n1 fd db))) = snd (complete n2 fd db) \<and>
   snd (restore n2 fd (snd (restore n1 fd db))) = snd (restore n2 fd db) \<and>
   forget_updatedAt (snd (complete n2 fd (snd (complete n1 fd db))))
     = forget_updatedAt (snd (complete n1 fd db)) \<and>
   forget_updatedAt (snd (restore n2 fd (snd (restore n1 fd db))))
     = forget_updatedAt (snd (restore n1 fd db))"
  by (simp add: complete_def restore_def db_update_def forget_updatedAt_def Let_def)

section \<open>The view projection\<close>

lemma str_includes_iff: "str_includes s sub \<longleftrightarrow> occurs_in sub s"
  unfolding occurs_in_def
proof (induction s)
  case Nil
  show ?case by auto
next
  case (Cons c cs)
  show ?case
  proof
    assume "str_includes (c # cs) sub"
    then consider "prefix sub (c # cs)" | "str_includes cs sub" by auto
    then show "\<exists>pre post. c # cs = pre @ sub @ post"
    proof cases
      case 1
      then obtain post where "c # cs = sub @ post" by (auto simp: prefix_def)
      then have "c # cs = [] @ sub @ post" by simp
      then show ?thesis by blast
    next
      case 2
      with Cons.IH obtain pre post where "cs = pre @ sub @ post" by blast
      then have "c # cs = (c # pre) @ sub @ post" by simp
      then show ?thesis by blast
    qed
  next
    assume "\<exists>pre post. c # cs = pre @ sub @ post"
    then obtain pre post where eq: "c # cs = pre @ sub @ post" by blast
    show "str_includes (c # cs) sub"
    proof (cases pre)
      case Nil
      with eq have "prefix sub (c # cs)" by (simp add: prefix_def)
      then show ?thesis by simp
    next
      case (Cons p pre')
      with eq have "cs = pre' @ sub @ post" by simp
      with Cons.IH have "str_includes cs sub" by blast
      then show ?thesis by simp
    qed
  qed
qed

lemma opt_includes_iff:
  "opt_includes lower field (lower needle) \<longleftrightarrow> opt_occurs_lowered lower needle field"
  by (simp add: opt_includes_def opt_occurs_lowered_def str_includes_iff split: option.splits)

lemma kept_visible_lowered: "kept lower s sc = visible_lowered lower s sc"
  by (rule ext)
     (simp add: kept_def visible_lowered_def matches_def str_includes_iff opt_includes_iff)

lemma filteredTodos_result:
  assumes "r < length h"
  shows "result_of (filteredTodos lower r s sc h)
           = sort_key sortOrder (filter (kept lower s sc) (h ! r))"
proof -
  have k: "filter (kept lower s sc) xs =
             (if trim s = [] then (if sc then xs else filter (\<lambda>t. completed t = 0) xs)
              else filter (matches lower (lower s))
                     (if sc then xs else filter (\<lambda>t. completed t = 0) xs))" for xs
    by (auto simp: kept_def intro: filter_cong)
  show ?thesis
    using assms
    by (simp add: k filteredTodos_def array_filter_def array_sort_def result_of_def
        nth_append)
qed

text \<open>
  Where the lower case form of a string is made code unit by code unit, a field contains
  the search text up to case exactly when its lower case form contains that of the search
  text.
\<close>

lemma occurs_lowered_charwise:
  assumes "lower = map f"
  shows "occurs_in (lower needle) (lower hay) \<longleftrightarrow> ci_substring lower needle hay"
proof
  assume "occurs_in (lower needle) (lower hay)"
  then obtain pre' post' where "map f hay = pre' @ map f needle @ post'"
    by (auto simp: occurs_in_def assms)
  then have "\<exists>us vs. hay = us @ vs \<and> pre' = map f us \<and> map f needle @ post' = map f vs"
    by (simp only: map_eq_append_conv)
  then obtain pre rest where hay: "hay = pre @ rest"
    and rest: "map f needle @ post' = map f rest"
    by blast
  from rest [symmetric] have "\<exists>us vs. rest = us @ vs \<and> map f needle = map f us \<and>
      post' = map f vs"
    by (simp only: map_eq_append_conv)
  then obtain mid post where "rest = mid @ post" and "map f mid = map f needle"
    by metis
  with hay have "hay = pre @ mid @ post \<and> lower mid = lower needle"
    by (simp add: assms)
  then show "ci_substring lower needle hay"
    unfolding ci_substring_def by blast
next
  assume "ci_substring lower needle hay"
  then obtain pre mid post where "hay = pre @ mid @ post" and "lower mid = lower needle"
    unfolding ci_substring_def by blast
  then have "lower hay = lower pre @ lower needle @ lower post"
    by (simp add: assms)
  then show "occurs_in (lower needle) (lower hay)"
    unfolding occurs_in_def by blast
qed

lemma visible_lowered_charwise:
  assumes "lower = map f"
  shows "visible_lowered lower s sc = visible lower s sc"
  by (rule ext)
     (simp add: visible_lowered_def visible_def opt_occurs_lowered_def opt_ci_substring_def
      occurs_lowered_charwise [OF assms] split: option.splits)

lemmas lower_sample_defs = toLowerCase_sample_def lower_unit_sample_def final_sigma_def
  isCased_sample_def isCaseIgnorable_sample_def

lemma toLowerCase_samples:
  "toLowerCase_sample (utf16 ''PAINT'') = utf16 ''paint''"
  "toLowerCase_sample (utf16 ''paint'') = utf16 ''paint''"
  "toLowerCase_sample (utf16 '' paint'') = utf16 '' paint''"
  "toLowerCase_sample (utf16 ''Paint wall'') = utf16 ''paint wall''"
  "toLowerCase_sample (utf16 ''Fix sink'') = utf16 ''fix sink''"
  by (simp_all add: lower_sample_defs utf16_def)

lemma toLowerCase_sigma:
  "toLowerCase_sample alpha_sigma = [0x3B1, 0x3C2]"
  "toLowerCase_sample sigma = [0x3C3]"
  by (simp_all add: lower_sample_defs alpha_sigma_def sigma_def)

lemma db_sigma_eq:
  "load db_sigma =
     [\<lparr> todo_id = utf16 ''s'', title = alpha_sigma, description = None, todo_notes = None,
         contractorHired = 0, contractorName = None, contractorDetails = None, cost = None,
         completed = 0, sortOrder = 0, createdAt = 70, updatedAt = 70 \<rparr>]"
proof -
  have "trim alpha_sigma = alpha_sigma" "alpha_sigma \<noteq> []"
    by (simp_all add: alpha_sigma_def trim_def isWhiteSpace_def)
  then show ?thesis
    by (simp add: db_sigma_def load_def create_def form_defs)
qed

lemma view_samples:
  "map title (result_of (filteredTodos toLowerCase_sample 0 (utf16 ''PAINT'') True [todos_view]))
     = [utf16 ''Paint wall'']"
  "map title (result_of (filteredTodos toLowerCase_sample 0 [] False [todos_view]))
     = [utf16 ''Fix sink'']"
proof -
  have t: "trim (utf16 ''PAINT'') \<noteq> []" "trim [] = []"
    by (simp_all add: trim_def isWhiteSpace_def utf16_def)
  have i: "str_includes (utf16 ''paint wall'') (utf16 ''paint'')"
    "\<not> str_includes (utf16 ''fix sink'') (utf16 ''paint'')"
    by (simp_all add: utf16_def)
  show "map title (result_of (filteredTodos toLowerCase_sample 0 (utf16 ''PAINT'') True
      [todos_view])) = [utf16 ''Paint wall'']"
    by (simp add: filteredTodos_result kept_def todos_view_eq matches_def opt_includes_def
        toLowerCase_samples t i)
  show "map title (result_of (filteredTodos toLowerCase_sample 0 [] False [todos_view]))
      = [utf16 ''Fix sink'']"
    by (simp add: filteredTodos_result kept_def todos_view_eq t)
qed

text \<open>
  The title of the one row is alpha, sigma and the search text is sigma, so the title
  contains the search text as it stands. The lower case form of the title ends in the
  final sigma \<open>U+03C2\<close>, that of the search text is \<open>U+03C3\<close>, and the row is not found.
\<close>

theorem view_misses_final_sigma:
  "map title (load db_sigma) = [[0x391] @ sigma @ []] \<and>
   result_of (filteredTodos toLowerCase_sample 0 sigma True [load db_sigma]) = [] \<and>
   mset (result_of (filteredTodos toLowerCase_sample 0 sigma True [load db_sigma]))
     \<noteq> filter_mset (visible toLowerCase_sample sigma True) (mset ([load db_sigma] ! 0))"
proof -
  have t: "trim sigma \<noteq> []"
    by (simp add: sigma_def trim_def isWhiteSpace_def)
  have r: "result_of (filteredTodos toLowerCase_sample 0 sigma True [load db_sigma]) = []"
    by (simp add: filteredTodos_result kept_def db_sigma_eq matches_def opt_includes_def
        toLowerCase_sigma t)
  have "alpha_sigma = [0x391] @ sigma @ [] \<and> toLowerCase_sample sigma = toLowerCase_sample sigma"
    by (simp add: alpha_sigma_def sigma_def)
  then have "ci_substring toLowerCase_sample sigma alpha_sigma"
    unfolding ci_substring_def by blast
  then have v: "filter_mset (visible toLowerCase_sample sigma True) (mset ([load db_sigma] ! 0))
      \<noteq> {#}"
    by (simp add: db_sigma_eq visible_def)
  have "map title (load db_sigma) = [[0x391] @ sigma @ []]"
    by (simp add: db_sigma_eq alpha_sigma_def sigma_def)
  with r v show ?thesis
    by simp
qed

text \<open>
  C7, amended: the view projection returns exactly the records that are not completed
  unless \<open>showCompleted\<close> is set and that, when the trimmed search text is not empty, have
  a title, description, notes or contractorName whose lower case form (\<open>toLowerCase\<close>)
  contains the lower case form of the search text, an absent field never matching; the
  result is in ascending order of \<open>sortOrder\<close>.
\<close>

theorem view_projection:
  assumes "r < length h"
  shows "mset (result_of (filteredTodos lower r s sc h))
           = filter_mset (visible_lowered lower s sc) (mset (h ! r)) \<and>
         sorted (map sortOrder (result_of (filteredTodos lower r s sc h)))"
  using assms by (simp add: filteredTodos_result kept_visible_lowered)

theorem view_projection_witness:
  "mset (result_of (filteredTodos toLowerCase_sample 0 (utf16 ''PAINT'') True [todos_view]))
     = filter_mset (visible_lowered toLowerCase_sample (utf16 ''PAINT'') True)
         (mset ([todos_view] ! 0)) \<and>
   sorted (map sortOrder
     (result_of (filteredTodos toLowerCase_sample 0 (utf16 ''PAINT'') True [todos_view]))) \<and>
   map title (result_of (filteredTodos toLowerCase_sample 0 (utf16 ''PAINT'') True [todos_view]))
     = [utf16 ''Paint wall''] \<and>
   map title (result_of (filteredTodos toLowerCase_sample 0 [] False [todos_view]))
     = [utf16 ''Fix sink'']"
proof -
  have "(0::nat) < length [todos_view]" by simp
  from view_projection [OF this, where lower = toLowerCase_sample and s = "utf16 ''PAINT''"
      and sc = True] view_samples
  show ?thesis
    by blast
qed

text \<open>
  The search text is trimmed for the test whether there is one, and used as typed for the
  match: a leading blank has to occur in the field too.
\<close>

lemma view_search_untrimmed:
  "trim (utf16 '' paint'') = utf16 ''paint'' \<and>
   result_of (filteredTodos toLowerCase_sample 0 (utf16 '' paint'') True [todos_view]) = []"
proof -
  have t: "trim (utf16 '' paint'') = utf16 ''paint''"
    by (simp add: trim_def isWhiteSpace_def utf16_def)
  have i: "\<not> str_includes (utf16 ''paint wall'') (utf16 '' paint'')"
    "\<not> str_includes (utf16 ''fix sink'') (utf16 '' paint'')"
    by (simp_all add: utf16_def)
  have "result_of (filteredTodos toLowerCase_sample 0 (utf16 '' paint'') True [todos_view]) = []"
    by (simp add: filteredTodos_result kept_def todos_view_eq matches_def opt_includes_def
        toLowerCase_samples t i)
  with t show ?thesis by simp
qed

section \<open>The view projection and its input array\<close>

text \<open>
  Records of equal \<open>sortOrder\<close> keep the order they have in the input. The array of the
  input is written only when no filter applies, and then with its own sorted copy, which
  changes nothing when it is in order already, as what \<open>load\<close> returns is.
\<close>

lemma load_sorted: "sorted (map sortOrder (load db))"
  by (simp add: load_def)

lemma filteredTodos_stable:
  assumes "r < length h"
  shows "filter (\<lambda>t. sortOrder t = k) (result_of (filteredTodos lower r s sc h))
           = filter (\<lambda>t. sortOrder t = k) (filter (kept lower s sc) (h ! r))"
  using assms by (simp add: filteredTodos_result sort_key_stable)

lemma filteredTodos_input:
  assumes "r < length h"
  shows "snd (filteredTodos lower r s sc h) ! r =
           (if sc \<and> trim s = [] then sort_key sortOrder (h ! r) else h ! r)"
  using assms
  by (simp add: filteredTodos_def array_filter_def array_sort_def nth_append)

lemma filteredTodos_input_sorted:
  assumes "r < length h" and "sorted (map sortOrder (h ! r))"
  shows "snd (filteredTodos lower r s sc h) ! r = h ! r"
  using assms by (simp add: filteredTodos_input sort_key_id_if_sorted)

lemma filteredTodos_heap:
  assumes "r < length h" and "sorted (map sortOrder (h ! r))"
  shows "take (length h) (snd (filteredTodos lower r s sc h)) = h"
proof -
  have "h[r := sort_key sortOrder (h ! r)] = h"
    using assms by (simp add: sort_key_id_if_sorted)
  then show ?thesis
    by (simp add: filteredTodos_def array_filter_def array_sort_def)
qed

text \<open>
  On an array that is not in order, which \<open>load\<close> never returns, the sort is seen in the
  array itself when no filter has made a copy.
\<close>

lemma filteredTodos_unsorted_input:
  "filteredTodos lower 0 [] True [todos_unsorted] = (0, [db_ab]) \<and> todos_unsorted \<noteq> db_ab"
  by (simp add: filteredTodos_def array_sort_def todos_unsorted_def db_ab_eq db_a_eq
      trim_def)

text \<open>
  C8: the view projection is a function of the records, the search text and the flag
  alone: on the array that \<open>data.todos\<close> holds, which is what \<open>load\<close> returned, the result
  is the same wherever the array lies and whatever else the heap holds; records of equal
  \<open>sortOrder\<close> keep their order; and every array that was there before, the input among
  them, is afterwards as it was.
\<close>

theorem view_projection_pure:
  assumes "r < length h" and "h ! r = load db"
  shows "result_of (filteredTodos lower r s sc h)
           = result_of (filteredTodos lower 0 s sc [load db]) \<and>
         filter (\<lambda>t. sortOrder t = k) (result_of (filteredTodos lower r s sc h))
           = filter (\<lambda>t. sortOrder t = k) (filter (kept lower s sc) (load db)) \<and>
         take (length h) (snd (filteredTodos lower r s sc h)) = h \<and>
         snd (filteredTodos lower r s sc h) ! r = load db"
proof -
  have s: "sorted (map sortOrder (h ! r))"
    by (simp add: assms(2) load_sorted)
  have "result_of (filteredTodos lower r s sc h)
          = result_of (filteredTodos lower 0 s sc [load db])"
    using assms by (simp add: filteredTodos_result)
  moreover have "filter (\<lambda>t. sortOrder t = k) (result_of (filteredTodos lower r s sc h))
          = filter (\<lambda>t. sortOrder t = k) (filter (kept lower s sc) (load db))"
    using filteredTodos_stable [OF assms(1)] assms(2) by simp
  moreover have "take (length h) (snd (filteredTodos lower r s sc h)) = h"
    using assms(1) s by (rule filteredTodos_heap)
  moreover have "snd (filteredTodos lower r s sc h) ! r = load db"
    using filteredTodos_input_sorted [OF assms(1) s] assms(2) by simp
  ultimately show ?thesis by blast
qed

theorem view_projection_pure_witness:
  "result_of (filteredTodos toLowerCase_sample 0 [] True [todos_view])
     = result_of (filteredTodos toLowerCase_sample 0 [] True
         [load (snd (complete 25 (form [(''id'', ''b'')]) db_ab))]) \<and>
   take (length [todos_view]) (snd (filteredTodos toLowerCase_sample 0 [] True [todos_view]))
     = [todos_view] \<and>
   snd (filteredTodos toLowerCase_sample 0 [] True [todos_view]) ! 0 = todos_view \<and>
   filteredTodos toLowerCase_sample 0 [] True [todos_view] = (0, [todos_view])"
proof -
  have l: "(0::nat) < length [todos_view]" by simp
  have e: "[todos_view] ! 0 = load (snd (complete 25 (form [(''id'', ''b'')]) db_ab))"
    by (simp add: todos_view_def)
  have f: "filteredTodos toLowerCase_sample 0 [] True [todos_view] = (0, [todos_view])"
    by (simp add: filteredTodos_def array_sort_def trim_def todos_view_eq)
  from view_projection_pure [OF l e, where lower = toLowerCase_sample and s = "[]"
      and sc = True] f
  show ?thesis
    by (simp add: todos_view_def)
qed

section \<open>What an update writes\<close>

text \<open>
  C9: a successful \<open>update\<close> overwrites description, notes, contractorName,
  contractorDetails and cost of every row with the submitted id by the normalized
  submitted values, \<open>None\<close> for a field that is absent or blank; the prior values play no
  part. The other rows stay as they are.
\<close>

theorem update_overwrites:
  assumes "update now fd db = (Success, db')"
  shows "length db' = length db \<and>
         (\<forall>i<length db.
            if formData_get fd ''id'' = Some (todo_id (db ! i))
            then description (db' ! i) = normalized fd ''description'' \<and>
                 todo_notes (db' ! i) = normalized fd ''notes'' \<and>
                 contractorName (db' ! i) = normalized fd ''contractorName'' \<and>
                 contractorDetails (db' ! i) = normalized fd ''contractorDetails'' \<and>
                 cost (db' ! i) = normalized_cost fd
            else db' ! i = db ! i)"
proof -
  from assms have id: "\<not> falsy (formData_get fd ''id'')"
    and ti: "\<not> falsy (trimmed fd ''title'')"
    by (auto simp: update_def Let_def split: if_splits)
  then obtain i where i: "formData_get fd ''id'' = Some i"
    by (auto simp: falsy_def)
  from assms id ti show ?thesis
    by (auto simp: update_def Let_def db_update_length db_update_nth i orNull_trimmed
        costOf_normalized)
qed

theorem update_overwrites_witness:
  "update 50 fd_edit db_a = (Success, snd (update 50 fd_edit db_a)) \<and>
   description (snd (update 50 fd_edit db_a) ! 0) = None \<and>
   todo_notes (snd (update 50 fd_edit db_a) ! 0) = Some (utf16 ''call plumber'') \<and>
   cost (snd (update 50 fd_edit db_a) ! 0) = Some (Num 1250) \<and>
   normalized fd_edit ''description'' = None \<and>
   normalized_cost fd_edit = Some (Num 1250)"
proof -
  have h: "update 50 fd_edit db_a = (Success, snd (update 50 fd_edit db_a))"
    by (simp add: update_fd_edit)
  have n: "normalized fd_edit ''notes'' = Some (utf16 ''call plumber'')"
    by (simp add: normalized_def blank_def fd_edit_def formData_get_def trim_edit_samples)
  have i: "formData_get fd_edit ''id'' = Some (todo_id (db_a ! 0))"
    by (simp add: fd_edit_def formData_get_def db_a_eq)
  have l: "0 < length db_a"
    by (simp add: db_a_eq)
  from update_overwrites [OF h] l i n show ?thesis
    using h by (auto simp: update_fd_edit)
qed

section \<open>What a reorder leaves alone\<close>

text \<open>
  C10: a \<open>reorder\<close> whose payload parses changes at most the field \<open>sortOrder\<close>: every
  row keeps all its other fields, \<open>completed\<close> and \<open>updatedAt\<close> among them, and a row
  whose id is not in the payload stays as it is.
\<close>

theorem reorder_frame:
  assumes "formData_get fd ''order'' = Some orderJson"
    and "parse orderJson = Some order"
  shows "length (snd (reorder parse fd db)) = length db \<and>
         (\<forall>i<length db.
            (snd (reorder parse fd db) ! i)\<lparr> sortOrder := sortOrder (db ! i) \<rparr> = db ! i \<and>
            (todo_id (db ! i) \<notin> fst ` set order \<longrightarrow> snd (reorder parse fd db) ! i = db ! i))"
proof -
  have r: "snd (reorder parse fd db) = (if orderJson = [] then db else apply_order order db)"
    using assms by (simp add: reorder_def Let_def falsy_def)
  show ?thesis
    using apply_order_other_fields [where db = db and order = order]
    by (auto simp: r apply_order_length apply_order_unlisted)
qed

theorem reorder_frame_witness:
  "length (snd (reorder JSON_parse_order fd_order_b db_ab)) = length db_ab \<and>
   snd (reorder JSON_parse_order fd_order_b db_ab) ! 0 = db_ab ! 0 \<and>
   (snd (reorder JSON_parse_order fd_order_b db_ab) ! 1)\<lparr> sortOrder := 1 \<rparr> = db_ab ! 1 \<and>
   sortOrder (snd (reorder JSON_parse_order fd_order_b db_ab) ! 1) = 7"
proof -
  have g: "formData_get fd_order_b ''order'' = Some (the (formData_get fd_order_b ''order''))"
    by (simp add: fd_order_b_def formData_get_def)
  have p: "JSON_parse_order (the (formData_get fd_order_b ''order'')) = Some [(utf16 ''b'', 7)]"
    by (simp add: fd_order_b_def formData_get_def JSON_parse_order_samples)
  have s: "sortOrder (snd (reorder JSON_parse_order fd_order_b db_ab) ! 1) = 7"
    using p by (simp add: reorder_def fd_order_b_def formData_get_def falsy_def
        apply_order_def db_update_def db_ab_eq db_a_eq)
  have l: "length db_ab = 2" "todo_id (db_ab ! 0) = utf16 ''a''" "sortOrder (db_ab ! 1) = 1"
    by (simp_all add: db_ab_eq db_a_eq)
  from reorder_frame [where parse = JSON_parse_order and fd = fd_order_b
      and orderJson = "the (formData_get fd_order_b ''order'')" and order = "[(utf16 ''b'', 7)]"
      and db = db_ab, OF g p] s l
  show ?thesis
    by (auto simp: numeral_2_eq_2 less_Suc_eq)
qed

end
